theory Spec2Isabelle
  imports Main "HOL-Library.Word"
begin

section \<open>Telemetry decoder of sac2020-flightcode (sac2020\_lib/telem\_decode.cpp)\<close>

text \<open>
  The decoder reads a dump of \<^verbatim>\<open>MainStateVector_t\<close> structs with \<^verbatim>\<open>fread\<close>, prints each
  one with \<^verbatim>\<open>sprintf\<close> as a row of a CSV file and reports the number of packets.  The
  header \<^verbatim>\<open>sac2020_state.h\<close>, which declares \<^verbatim>\<open>VehicleState_t\<close> and
  \<^verbatim>\<open>MainStateVector_t\<close>, is not among the sources: what it fixes (the values of the seven
  enumerators, the size of the struct and how its object representation is read as field
  values) is a parameter of every definition below.
\<close>

subsection \<open>Values handed to the C library\<close>

text \<open>
  A floating-point argument of \<^verbatim>\<open>printf\<close> is a \<^verbatim>\<open>double\<close> (a \<^verbatim>\<open>float\<close> is promoted without
  change of value).  Such a value is finite, \<open>(-1)\<^sup>s \<sqdot> m \<sqdot> 2\<^sup>e\<close>, or an infinity, or a NaN;
  each carries its sign bit.
\<close>

datatype cfloat = Finite bool nat int | Infinite bool | NaN bool

type_synonym uint8_t = "8 word"
type_synonym uint32_t = "32 word"

text \<open>The arguments of a \<^verbatim>\<open>printf\<close> call: a double, a string, an \<^verbatim>\<open>int\<close> (32 bits).\<close>

datatype arg = Dbl cfloat | Str string | I32 "32 word"

subsection \<open>Decimal output: the conversions \<^verbatim>\<open>%d\<close>, \<^verbatim>\<open>%s\<close> and \<^verbatim>\<open>%.4f\<close>\<close>

definition digit_char :: "nat \<Rightarrow> char" where
  "digit_char d = ''0123456789'' ! d"

function dec :: "nat \<Rightarrow> string" where
  "dec n = (if n < 10 then [digit_char n] else dec (n div 10) @ [digit_char (n mod 10)])"
  by pat_completeness auto
termination
  by (relation "measure id") auto

declare dec.simps [simp del]

text \<open>\<^verbatim>\<open>%d\<close> prints its argument as a signed \<^verbatim>\<open>int\<close>.\<close>

definition fmt_d :: "32 word \<Rightarrow> string" where
  "fmt_d i = (if sint i < 0 then CHR ''-'' # dec (nat (- sint i)) else dec (nat (sint i)))"

text \<open>
  \<^verbatim>\<open>%.4f\<close> prints the exact value rounded to a multiple of \<open>10\<^sup>-\<^sup>4\<close>, to nearest and
  ties to even (the default rounding mode): \<open>scaled4 m e\<close> is \<open>m \<sqdot> 2\<^sup>e \<sqdot> 10\<^sup>4\<close> so rounded.
  An infinity prints as \<^verbatim>\<open>inf\<close> and a NaN as \<^verbatim>\<open>nan\<close>, after the sign.  The decimal point
  is that of the C locale, which the program never changes.
\<close>

definition scaled4 :: "nat \<Rightarrow> int \<Rightarrow> nat" where
  "scaled4 m e =
     (if 0 \<le> e then m * 2 ^ nat e * 10000
      else let d = 2 ^ nat (- e); n = m * 10000; q = n div d; r = n mod d
           in if 2 * r < d then q
              else if d < 2 * r then q + 1
              else if even q then q else q + 1)"

definition sign_str :: "bool \<Rightarrow> string" where
  "sign_str s = (if s then ''-'' else [])"

definition fixed4 :: "nat \<Rightarrow> string" where
  "fixed4 q = dec (q div 10000) @ CHR ''.'' #
     [digit_char (q div 1000 mod 10), digit_char (q div 100 mod 10),
      digit_char (q div 10 mod 10), digit_char (q mod 10)]"

fun fmt_f4 :: "cfloat \<Rightarrow> string" where
  "fmt_f4 (Finite s m e) = sign_str s @ fixed4 (scaled4 m e)"
| "fmt_f4 (Infinite s) = sign_str s @ ''inf''"
| "fmt_f4 (NaN s) = sign_str s @ ''nan''"

text \<open>
  \<^verbatim>\<open>sprintf\<close> for the three directives the program uses.  A directive that does not match
  the next argument, and any other directive, is undefined behaviour: \<open>None\<close>.
\<close>

fun sprintf :: "string \<Rightarrow> arg list \<Rightarrow> string option" where
  "sprintf [] args = Some []"
| "sprintf (c # fmt) args =
     (if c \<noteq> CHR ''%'' then map_option ((#) c) (sprintf fmt args)
      else if take 3 fmt = ''.4f'' then
        (case args of Dbl x # as \<Rightarrow> map_option ((@) (fmt_f4 x)) (sprintf (drop 3 fmt) as)
         | _ \<Rightarrow> None)
      else if take 1 fmt = ''s'' then
        (case args of Str s # as \<Rightarrow> map_option ((@) s) (sprintf (drop 1 fmt) as)
         | _ \<Rightarrow> None)
      else if take 1 fmt = ''d'' then
        (case args of I32 i # as \<Rightarrow> map_option ((@) (fmt_d i)) (sprintf (drop 1 fmt) as)
         | _ \<Rightarrow> None)
      else None)"

subsection \<open>The declarations of \<^verbatim>\<open>sac2020_state.h\<close>\<close>

text \<open>
  \<open>VehicleState_t\<close> holds the values of the seven enumerators, as the \<^verbatim>\<open>uint8_t\<close> that
  \<^verbatim>\<open>state_name\<close> compares them with.  C++ refuses a \<^verbatim>\<open>switch\<close> with two equal case labels,
  so in a program that compiles they are distinct: \<open>distinct_states\<close>.
\<close>

record VehicleState_t =
  PRELTOFF :: uint8_t
  PWFLIGHT :: uint8_t
  CRUISING :: uint8_t
  CRSCANRD :: uint8_t
  FALLDROG :: uint8_t
  FALLMAIN :: uint8_t
  CONCLUDE :: uint8_t

definition states :: "VehicleState_t \<Rightarrow> uint8_t list" where
  "states E = [PRELTOFF E, PWFLIGHT E, CRUISING E, CRSCANRD E, FALLDROG E, FALLMAIN E,
               CONCLUDE E]"

definition distinct_states :: "VehicleState_t \<Rightarrow> bool" where
  "distinct_states E = distinct (states E)"

subsection \<open>\<^verbatim>\<open>state_name\<close>\<close>

definition state_name :: "VehicleState_t \<Rightarrow> uint8_t \<Rightarrow> string" where
  "state_name E state =
     (if state = PRELTOFF E then ''PRELTOFF''
      else if state = PWFLIGHT E then ''PWFLIGHT''
      else if state = CRUISING E then ''CRUISING''
      else if state = CRSCANRD E then ''CRSCANRD''
      else if state = FALLDROG E then ''FALLDROG''
      else if state = FALLMAIN E then ''FALLMAIN''
      else if state = CONCLUDE E then ''CONCLUDE''
      else ''UNKNOWN'')"

subsection \<open>The struct \<^verbatim>\<open>MainStateVector_t\<close>\<close>

text \<open>
  The fields of \<^verbatim>\<open>MainStateVector_t\<close> that \<^verbatim>\<open>main\<close> reads, each as the value its \<^verbatim>\<open>printf\<close>
  argument has: a double for \<^verbatim>\<open>%.4f\<close>, the \<^verbatim>\<open>uint8_t\<close> parameter of \<^verbatim>\<open>state_name\<close>, an
  \<^verbatim>\<open>int\<close> for \<^verbatim>\<open>%d\<close>.
\<close>

record MainStateVector_t =
  time :: cfloat
  state :: uint8_t
  altitude :: cfloat
  velocity :: cfloat
  acceleration :: cfloat
  pressure :: cfloat
  temperature :: cfloat
  baro_altitude :: cfloat
  imu_temp :: "32 word"
  accel_x :: cfloat
  accel_y :: cfloat
  accel_z :: cfloat
  accel_vertical :: cfloat
  gyro_x :: cfloat
  gyro_y :: cfloat
  gyro_z :: cfloat
  quat_w :: cfloat
  quat_x :: cfloat
  quat_y :: cfloat
  quat_z :: cfloat
  launchpad_altitude :: cfloat

text \<open>
  The header as a whole: the enumerators, \<^verbatim>\<open>sizeof(vec)\<close>, and the field values of a struct
  whose object representation is the given bytes.
\<close>

record sac2020_state_h =
  VehicleState :: VehicleState_t
  sizeof_vec :: nat
  load_vec :: "string \<Rightarrow> MainStateVector_t"

subsection \<open>One row: the \<^verbatim>\<open>sprintf\<close> call of the loop body\<close>

definition row_format :: string where
  "row_format = ''%.4f,%s,%.4f,%.4f,%.4f,%.4f,%.4f,%.4f,%d,%.4f,%.4f,'' @
                ''%.4f,%.4f,%.4f,%.4f,%.4f,%.4f,%.4f,%.4f,%.4f,%.4f\<newline>''"

definition format_row :: "VehicleState_t \<Rightarrow> MainStateVector_t \<Rightarrow> string option" where
  "format_row E vec = sprintf row_format
     [Dbl (time vec), Str (state_name E (state vec)), Dbl (altitude vec),
      Dbl (velocity vec), Dbl (acceleration vec), Dbl (pressure vec),
      Dbl (temperature vec), Dbl (baro_altitude vec), I32 (imu_temp vec),
      Dbl (accel_x vec), Dbl (accel_y vec), Dbl (accel_z vec),
      Dbl (accel_vertical vec), Dbl (gyro_x vec), Dbl (gyro_y vec), Dbl (gyro_z vec),
      Dbl (quat_w vec), Dbl (quat_x vec), Dbl (quat_y vec), Dbl (quat_z vec),
      Dbl (launchpad_altitude vec)]"

subsection \<open>The loop of \<^verbatim>\<open>main\<close>\<close>

text \<open>
  What can go wrong is undefined behaviour of the C library: a stream function called on
  the null pointer that a failed \<^verbatim>\<open>fopen\<close> returned, a row longer than the buffer
  \<^verbatim>\<open>record[1024]\<close>, a directive without its argument.
\<close>

datatype error = NullStream | BufferOverflow | FormatMismatch

text \<open>
  \<^verbatim>\<open>fread(&vec, sizeof(vec), 1, p_fin)\<close> on the unread rest of the input: one item when that
  many bytes are left, none otherwise (and none for a size of zero).
\<close>

definition fread_vec :: "sac2020_state_h \<Rightarrow> string \<Rightarrow> (MainStateVector_t \<times> string) option" where
  "fread_vec H p_fin =
     (if 0 < sizeof_vec H \<and> sizeof_vec H \<le> length p_fin
      then Some (load_vec H (take (sizeof_vec H) p_fin), drop (sizeof_vec H) p_fin)
      else None)"

text \<open>
  The \<^verbatim>\<open>while\<close> loop, on the rest of the input, the counter and what has been written to
  \<^verbatim>\<open>p_fout\<close>.  The row and its terminating zero must fit into \<^verbatim>\<open>record[1024]\<close>.
\<close>

function main_loop ::
  "sac2020_state_h \<Rightarrow> string \<Rightarrow> uint32_t \<Rightarrow> string \<Rightarrow> error option \<times> uint32_t \<times> string" where
  "main_loop H p_fin packet_count p_fout =
     (case fread_vec H p_fin of
        None \<Rightarrow> (None, packet_count, p_fout)
      | Some (vec, rest) \<Rightarrow>
          (case format_row (VehicleState H) vec of
             None \<Rightarrow> (Some FormatMismatch, packet_count + 1, p_fout)
           | Some row \<Rightarrow>
               if length row < 1024
               then main_loop H rest (packet_count + 1) (p_fout @ row)
               else (Some BufferOverflow, packet_count + 1, p_fout)))"
  by pat_completeness auto
termination
  by (relation "measure (\<lambda>(H, p_fin, packet_count, p_fout). length p_fin)")
     (auto simp: fread_vec_def split: if_splits)

declare main_loop.simps [simp del]

subsection \<open>\<^verbatim>\<open>main\<close>\<close>

text \<open>
  The files that can be opened for reading, with their contents; the names that can be
  opened for writing; what has been printed to the standard output.  Reading an open
  file and writing to an open stream do not fail.
\<close>

record world =
  files :: "string \<rightharpoonup> string"
  writable :: "string \<Rightarrow> bool"
  console :: string

text \<open>
  A run returns from \<^verbatim>\<open>main\<close> (which has no other exit), or reaches undefined behaviour:
  then the outcome holds the world at that point and what had been handed to the output
  stream, which is still open.
\<close>

datatype outcome = Returned world | Undefined error world string

definition header_row :: string where
  "header_row = ''Time,State,Filtered Altitude,Filtered Velocity,Filtered Acceleration,'' @
                ''Pressure,Temperature,Barometer Altitude,IMU Temperature,'' @
                ''Accel X,Accel Y,Accel Z,Accel Vertical,Gyro X,Gyro Y,Gyro Z,'' @
                ''Quat W,Quat X,Quat Y,Quat Z,LP Altitude\<newline>''"

text \<open>\<^verbatim>\<open>fopen(name, "rb")\<close>: the contents to read, or the null pointer.\<close>

definition fopen_rb :: "world \<Rightarrow> string \<Rightarrow> string option" where
  "fopen_rb w name = files w name"

text \<open>\<^verbatim>\<open>fopen(name, "w")\<close>: the file is created or truncated, or the null pointer.\<close>

definition fopen_w :: "world \<Rightarrow> string \<Rightarrow> bool \<times> world" where
  "fopen_w w name =
     (if writable w name then (True, w\<lparr>files := (files w)(name \<mapsto> [])\<rparr>) else (False, w))"

text \<open>
  \<^verbatim>\<open>main\<close>, called with the one argument \<^verbatim>\<open>av[1]\<close>.  Neither result of \<^verbatim>\<open>fopen\<close> is
  tested.  Every name is a file of its own here (links come with \<open>main_linked\<close> below),
  so the input is what its file holds when it is opened.  The output reaches its file when \<^verbatim>\<open>fclose(p_fout)\<close> flushes the
  stream; text is written as it is, as on a POSIX system.  \<^verbatim>\<open>printf\<close> appends to the console
  what \<^verbatim>\<open>sprintf\<close> would write.
\<close>

definition main :: "sac2020_state_h \<Rightarrow> string \<Rightarrow> world \<Rightarrow> outcome" where
  "main H av1 w =
     (let p_fin = fopen_rb w av1;
          fout_name = av1 @ ''.csv'';
          (p_fout, w1) = fopen_w w fout_name
      in if \<not> p_fout then Undefined NullStream w1 []
         else case p_fin of
           None \<Rightarrow> Undefined NullStream w1 header_row
         | Some bytes \<Rightarrow>
             (case main_loop H bytes 0 header_row of
                (Some e, packet_count, out) \<Rightarrow> Undefined e w1 out
              | (None, packet_count, out) \<Rightarrow>
                  (case sprintf ''Decoded %d telemetry packets\<newline>'' [I32 packet_count] of
                     None \<Rightarrow> Undefined FormatMismatch (w1\<lparr>files := (files w1)(fout_name \<mapsto> out)\<rparr>) []
                   | Some msg \<Rightarrow>
                       Returned (w1\<lparr>files := (files w1)(fout_name \<mapsto> out),
                                     console := console w1 @ msg\<rparr>))))"

subsection \<open>Names that are links\<close>

text \<open>
  In a \<open>world\<close> as \<open>main\<close> above reads it, every name is a file of its own.  A name can
  also be a link to another file: \<open>target name\<close> is then the file that the name denotes (the
  name itself when it is no link), and \<open>files\<close> holds the contents of each file.
  \<^verbatim>\<open>fopen(name, "rb")\<close> yields a stream on the file the name denotes, and \<^verbatim>\<open>fopen(name, "w")\<close>
  empties that file or creates it.
\<close>

definition fopen_rb_at :: "(string \<Rightarrow> string) \<Rightarrow> world \<Rightarrow> string \<Rightarrow> string option" where
  "fopen_rb_at target w name =
     (case files w (target name) of None \<Rightarrow> None | Some bytes \<Rightarrow> Some (target name))"

definition fopen_w_at :: "(string \<Rightarrow> string) \<Rightarrow> world \<Rightarrow> string \<Rightarrow> string option \<times> world" where
  "fopen_w_at target w name =
     (if writable w name then (Some (target name), w\<lparr>files := (files w)(target name \<mapsto> [])\<rparr>)
      else (None, w))"

text \<open>What a stream on a file has to read: the contents the file has then.\<close>

definition unread :: "world \<Rightarrow> string \<Rightarrow> string" where
  "unread w f = (case files w f of None \<Rightarrow> [] | Some bytes \<Rightarrow> bytes)"

text \<open>
  \<^verbatim>\<open>main\<close> with links, in the order of the source: the input is opened, the output is
  opened (and emptied), the header is handed to the output stream, and only then does the
  loop read the input, as the file is at that point.  What is written stays in the buffer
  of the output stream until \<^verbatim>\<open>fclose(p_fout)\<close>: where the output name denotes the input
  file the loop finds that file empty, and the header alone (225 characters) is below the
  least size of a stream buffer, 256.  \<open>main_linked H id\<close> is \<open>main H\<close>.
\<close>

definition main_linked :: "sac2020_state_h \<Rightarrow> (string \<Rightarrow> string) \<Rightarrow> string \<Rightarrow> world \<Rightarrow> outcome" where
  "main_linked H target av1 w =
     (let p_fin = fopen_rb_at target w av1;
          fout_name = av1 @ ''.csv'';
          (p_fout, w1) = fopen_w_at target w fout_name
      in case p_fout of
           None \<Rightarrow> Undefined NullStream w1 []
         | Some fout \<Rightarrow>
             (case p_fin of
                None \<Rightarrow> Undefined NullStream w1 header_row
              | Some fin \<Rightarrow>
                  (case main_loop H (unread w1 fin) 0 header_row of
                     (Some e, packet_count, out) \<Rightarrow> Undefined e w1 out
                   | (None, packet_count, out) \<Rightarrow>
                       (case sprintf ''Decoded %d telemetry packets\<newline>'' [I32 packet_count] of
                          None \<Rightarrow> Undefined FormatMismatch (w1\<lparr>files := (files w1)(fout \<mapsto> out)\<rparr>) []
                        | Some msg \<Rightarrow>
                            Returned (w1\<lparr>files := (files w1)(fout \<mapsto> out),
                                          console := console w1 @ msg\<rparr>)))))"

subsection \<open>The loop as a machine\<close>




subsection \<open>Notions of the specification\<close>

text \<open>The world in which a run ended, and there the output file and the report.\<close>

fun final_world :: "outcome \<Rightarrow> world" where
  "final_world (Returned w) = w"
| "final_world (Undefined e w s) = w"

text \<open>A row as text: its fields, joined by commas, and its number of lines.\<close>

fun split_on :: "char \<Rightarrow> string \<Rightarrow> string list" where
  "split_on s [] = [[]]"
| "split_on s (c # cs) =
     (if c = s then [] # split_on s cs
      else (case split_on s cs of [] \<Rightarrow> [[c]] | f # fs \<Rightarrow> (c # f) # fs))"

fun join :: "string list \<Rightarrow> string" where
  "join [] = []"
| "join [f] = f"
| "join (f # g # fs) = f @ CHR '','' # join (g # fs)"

definition count_lines :: "string \<Rightarrow> nat" where
  "count_lines s = length (filter (\<lambda>c. c = CHR ''\<newline>'') s)"

definition field_char :: "char \<Rightarrow> bool" where
  "field_char c = (c \<noteq> CHR '','' \<and> c \<noteq> CHR ''\<newline>'')"

definition is_digit :: "char \<Rightarrow> bool" where
  "is_digit c = (c \<in> set ''0123456789'')"

text \<open>
  Fixed-point notation with four digits after the point: an optional minus sign, at least
  one digit, a point, exactly four digits.  A plain decimal integer: an optional minus
  sign and at least one digit.
\<close>

definition fixed_point4 :: "string \<Rightarrow> bool" where
  "fixed_point4 s =
     (let t = (case s of [] \<Rightarrow> [] | c # r \<Rightarrow> if c = CHR ''-'' then r else s);
          ip = takeWhile is_digit t;
          fr = dropWhile is_digit t
      in ip \<noteq> [] \<and> (case fr of [] \<Rightarrow> False
                     | c # ds \<Rightarrow> c = CHR ''.'' \<and> length ds = 4 \<and> list_all is_digit ds))"

definition decimal_int :: "string \<Rightarrow> bool" where
  "decimal_int s =
     (let t = (case s of [] \<Rightarrow> [] | c # r \<Rightarrow> if c = CHR ''-'' then r else s)
      in t \<noteq> [] \<and> list_all is_digit t)"

fun is_finite :: "cfloat \<Rightarrow> bool" where
  "is_finite (Finite s m e) = True"
| "is_finite (Infinite s) = False"
| "is_finite (NaN s) = False"

text \<open>The nineteen floating-point fields, and the twenty-one fields of a row, in order.\<close>

definition float_fields :: "MainStateVector_t \<Rightarrow> cfloat list" where
  "float_fields vec =
     [time vec, altitude vec, velocity vec, acceleration vec, pressure vec, temperature vec,
      baro_altitude vec, accel_x vec, accel_y vec, accel_z vec, accel_vertical vec,
      gyro_x vec, gyro_y vec, gyro_z vec, quat_w vec, quat_x vec, quat_y vec, quat_z vec,
      launchpad_altitude vec]"

definition row_fields :: "VehicleState_t \<Rightarrow> MainStateVector_t \<Rightarrow> string list" where
  "row_fields E vec =
     [fmt_f4 (time vec), state_name E (state vec), fmt_f4 (altitude vec),
      fmt_f4 (velocity vec), fmt_f4 (acceleration vec), fmt_f4 (pressure vec),
      fmt_f4 (temperature vec), fmt_f4 (baro_altitude vec), fmt_d (imu_temp vec),
      fmt_f4 (accel_x vec), fmt_f4 (accel_y vec), fmt_f4 (accel_z vec),
      fmt_f4 (accel_vertical vec), fmt_f4 (gyro_x vec), fmt_f4 (gyro_y vec),
      fmt_f4 (gyro_z vec), fmt_f4 (quat_w vec), fmt_f4 (quat_x vec), fmt_f4 (quat_y vec),
      fmt_f4 (quat_z vec), fmt_f4 (launchpad_altitude vec)]"

definition row_text :: "sac2020_state_h \<Rightarrow> string \<Rightarrow> string" where
  "row_text H r = join (row_fields (VehicleState H) (load_vec H r)) @ ''\<newline>''"

text \<open>
  The complete records of a stream of records of \<open>n\<close> bytes, in the order of the input.
  (In C++ \<open>n\<close> is above zero; for \<open>n = 0\<close> there is none, as \<^verbatim>\<open>fread\<close> reads none.)
\<close>

function complete_records :: "nat \<Rightarrow> string \<Rightarrow> string list" where
  "complete_records n bs =
     (if 0 < n \<and> n \<le> length bs then take n bs # complete_records n (drop n bs) else [])"
  by pat_completeness auto
termination
  by (relation "measure (\<lambda>(n, bs). length bs)") auto

declare complete_records.simps [simp del]

text \<open>
  A value that a C \<^verbatim>\<open>float\<close> can hold is an infinity, a NaN, or finite and below \<open>2\<^sup>1\<^sup>2\<^sup>8\<close> in
  magnitude.  \<open>binary32_fields\<close> says of the header that the floating-point fields of the
  struct are declared \<^verbatim>\<open>float\<close>: whatever the bytes, their values are such.  Then no row
  overflows \<^verbatim>\<open>record[1024]\<close>.
\<close>

fun fits_float32 :: "cfloat \<Rightarrow> bool" where
  "fits_float32 (Finite s m e) =
     (if 0 \<le> e then m * 2 ^ nat e < 2 ^ 128 else m < 2 ^ 128 * 2 ^ nat (- e))"
| "fits_float32 (Infinite s) = True"
| "fits_float32 (NaN s) = True"

definition binary32_fields :: "sac2020_state_h \<Rightarrow> bool" where
  "binary32_fields H = (\<forall>bs. list_all fits_float32 (float_fields (load_vec H bs)))"

subsection \<open>A header to run the decoder on\<close>

text \<open>
  Modelled from the spec: \<^verbatim>\<open>sac2020_state.h\<close> is not among the sources.  An instance of
  it for concrete runs, with the seven states and the 21 fields in the order the
  specification gives, tightly packed as it asks; that the enumerators are numbered from 0,
  that the floating-point fields are little-endian IEEE 754 binary32, the state one byte
  and the IMU temperature a little-endian 32-bit integer (81 bytes in all) is chosen here.
  The theorems below hold for every header; this one serves their concrete instances.
\<close>

definition default_states :: VehicleState_t where
  "default_states = \<lparr>PRELTOFF = 0, PWFLIGHT = 1, CRUISING = 2, CRSCANRD = 3, FALLDROG = 4,
                      FALLMAIN = 5, CONCLUDE = 6\<rparr>"

definition byte_at :: "string \<Rightarrow> nat \<Rightarrow> nat" where
  "byte_at bs i = (if i < length bs then of_char (bs ! i) else 0)"

definition le32 :: "string \<Rightarrow> nat \<Rightarrow> nat" where
  "le32 bs i = byte_at bs i + 256 * byte_at bs (i + 1) + 65536 * byte_at bs (i + 2)
               + 16777216 * byte_at bs (i + 3)"

definition binary32 :: "nat \<Rightarrow> cfloat" where
  "binary32 w =
     (let s = odd (w div 2 ^ 31); ex = w div 2 ^ 23 mod 256; fr = w mod 2 ^ 23
      in if ex = 255 then (if fr = 0 then Infinite s else NaN s)
         else if ex = 0 then Finite s fr (- 149)
         else Finite s (2 ^ 23 + fr) (int ex - 150))"

definition packed_load :: "string \<Rightarrow> MainStateVector_t" where
  "packed_load bs =
     \<lparr>time = binary32 (le32 bs 0), state = of_nat (byte_at bs 4),
      altitude = binary32 (le32 bs 5), velocity = binary32 (le32 bs 9),
      acceleration = binary32 (le32 bs 13), pressure = binary32 (le32 bs 17),
      temperature = binary32 (le32 bs 21), baro_altitude = binary32 (le32 bs 25),
      imu_temp = of_nat (le32 bs 29),
      accel_x = binary32 (le32 bs 33), accel_y = binary32 (le32 bs 37),
      accel_z = binary32 (le32 bs 41), accel_vertical = binary32 (le32 bs 45),
      gyro_x = binary32 (le32 bs 49), gyro_y = binary32 (le32 bs 53),
      gyro_z = binary32 (le32 bs 57), quat_w = binary32 (le32 bs 61),
      quat_x = binary32 (le32 bs 65), quat_y = binary32 (le32 bs 69),
      quat_z = binary32 (le32 bs 73), launchpad_altitude = binary32 (le32 bs 77)\<rparr>"

definition packed_header :: sac2020_state_h where
  "packed_header = \<lparr>VehicleState = default_states, sizeof_vec = 81, load_vec = packed_load\<rparr>"

text \<open>A world with no file, where every name can be written; and one with a single file.\<close>

definition empty_world :: world where
  "empty_world = \<lparr>files = Map.empty, writable = (\<lambda>name. True), console = []\<rparr>"

definition world_with :: "string \<Rightarrow> string \<Rightarrow> world" where
  "world_with name bytes = empty_world\<lparr>files := [name \<mapsto> bytes]\<rparr>"

text \<open>
  A record in the layout of \<open>packed_header\<close>, all bytes zero but the state; a struct
  whose fields are all zero, and one whose time is a NaN.
\<close>

definition record_in_state :: "char \<Rightarrow> string" where
  "record_in_state c = replicate 4 (CHR 0x00) @ [c] @ replicate 76 (CHR 0x00)"

definition zero_vec :: MainStateVector_t where
  "zero_vec =
     \<lparr>time = Finite False 0 0, state = 0, altitude = Finite False 0 0,
      velocity = Finite False 0 0, acceleration = Finite False 0 0,
      pressure = Finite False 0 0, temperature = Finite False 0 0,
      baro_altitude = Finite False 0 0, imu_temp = 0, accel_x = Finite False 0 0,
      accel_y = Finite False 0 0, accel_z = Finite False 0 0,
      accel_vertical = Finite False 0 0, gyro_x = Finite False 0 0,
      gyro_y = Finite False 0 0, gyro_z = Finite False 0 0, quat_w = Finite False 0 0,
      quat_x = Finite False 0 0, quat_y = Finite False 0 0, quat_z = Finite False 0 0,
      launchpad_altitude = Finite False 0 0\<rparr>"

definition nan_vec :: MainStateVector_t where
  "nan_vec = zero_vec\<lparr>time := NaN False\<rparr>"

text \<open>
  Dumps of \<open>2\<^sup>3\<^sup>1\<close> and of \<open>2\<^sup>3\<^sup>2\<close> records of 81 bytes, and the latter with one more
  byte.
\<close>

definition half_dump :: string where
  "half_dump = replicate (81 * 2 ^ 31) (CHR 0x00)"

definition huge_dump :: string where
  "huge_dump = replicate (81 * 2 ^ 32) (CHR 0x00)"

definition huge_dump_fragment :: string where
  "huge_dump_fragment = huge_dump @ [CHR 0x00]"

text \<open>
  Two records in that layout, the first in powered flight, the second with a state code
  outside the enumeration; and a world where the output file of an earlier run exists.
\<close>

definition two_records :: string where
  "two_records = record_in_state (CHR 0x01) @ record_in_state (CHR 0xC8)"




section \<open>Lemmas\<close>

subsection \<open>Decimal digits\<close>

lemma digit_char_is_digit: "d < 10 \<Longrightarrow> is_digit (digit_char d)"
  unfolding is_digit_def digit_char_def by (rule nth_mem) simp

lemma dec_digits: "list_all is_digit (dec n)"
proof (induction n rule: dec.induct)
  case (1 n)
  show ?case
  proof (cases "n < 10")
    case True
    then show ?thesis by (subst dec.simps) (simp add: digit_char_is_digit)
  next
    case False
    with 1 show ?thesis by (subst dec.simps) (simp add: digit_char_is_digit)
  qed
qed

lemma dec_nonempty: "dec n \<noteq> []"
  by (subst dec.simps) simp

lemma dec_length: "0 < k \<Longrightarrow> n < 10 ^ k \<Longrightarrow> length (dec n) \<le> k"
proof (induction k arbitrary: n)
  case 0
  then show ?case by simp
next
  case (Suc k)
  show ?case
  proof (cases "n < 10")
    case True
    then show ?thesis by (subst dec.simps) simp
  next
    case False
    then have k: "0 < k" using Suc.prems by (cases k) auto
    have "n div 10 < 10 ^ k" using Suc.prems by (simp add: less_mult_imp_div_less mult.commute)
    then have "length (dec (n div 10)) \<le> k" using Suc.IH k by blast
    with False show ?thesis by (subst dec.simps) simp
  qed
qed

lemma not_digit_dot: "\<not> is_digit CHR ''.''"
  by (simp add: is_digit_def)

lemma not_digit_minus: "\<not> is_digit CHR ''-''"
  by (simp add: is_digit_def)

lemma hd_dec_digit: "\<exists>c r. dec n = c # r \<and> is_digit c"
  using dec_digits [of n] dec_nonempty [of n] by (cases "dec n") auto

lemma dec_0: "dec 0 = ''0''"
  by (subst dec.simps) (simp add: digit_char_def)

lemma dec_2: "dec 2 = ''2''"
  by (subst dec.simps) (simp add: digit_char_def)

subsection \<open>The shape of what \<^verbatim>\<open>%.4f\<close> and \<^verbatim>\<open>%d\<close> print\<close>

lemma takeWhile_digits_dot:
  "list_all is_digit ip \<Longrightarrow> takeWhile is_digit (ip @ CHR ''.'' # fr) = ip"
  by (simp add: list_all_iff takeWhile_tail not_digit_dot)

lemma dropWhile_digits_dot:
  "list_all is_digit ip \<Longrightarrow> dropWhile is_digit (ip @ CHR ''.'' # fr) = CHR ''.'' # fr"
  by (simp add: list_all_iff dropWhile_append3 not_digit_dot)

lemma fixed_point4_plain:
  assumes "list_all is_digit ip" "ip \<noteq> []" "list_all is_digit fr" "length fr = 4"
  shows "fixed_point4 (ip @ CHR ''.'' # fr)"
proof -
  obtain c r where cr: "ip = c # r" using assms(2) by (cases ip) auto
  then have "is_digit c" using assms(1) by simp
  then have c': "c \<noteq> CHR ''-''" using not_digit_minus by auto
  have strip: "(case ip @ CHR ''.'' # fr of [] \<Rightarrow> [] | c # r \<Rightarrow>
                  if c = CHR ''-'' then r else ip @ CHR ''.'' # fr) = ip @ CHR ''.'' # fr"
    using cr c' by simp
  show ?thesis
    unfolding fixed_point4_def strip Let_def
    by (simp add: takeWhile_digits_dot dropWhile_digits_dot assms)
qed

lemma fixed_point4_minus:
  assumes "list_all is_digit ip" "ip \<noteq> []" "list_all is_digit fr" "length fr = 4"
  shows "fixed_point4 (CHR ''-'' # ip @ CHR ''.'' # fr)"
  unfolding fixed_point4_def Let_def
  by (simp add: takeWhile_digits_dot dropWhile_digits_dot assms)

lemma fixed_point4_fixed4: "fixed_point4 (sign_str s @ fixed4 q)"
proof -
  let ?fr = "[digit_char (q div 1000 mod 10), digit_char (q div 100 mod 10),
      digit_char (q div 10 mod 10), digit_char (q mod 10)]"
  have fr: "list_all is_digit ?fr" "length ?fr = 4" by (simp_all add: digit_char_is_digit)
  show ?thesis
    using fixed_point4_plain [OF dec_digits dec_nonempty fr]
      fixed_point4_minus [OF dec_digits dec_nonempty fr]
    by (simp add: sign_str_def fixed4_def)
qed

lemma decimal_int_fmt_d: "decimal_int (fmt_d i)"
proof -
  have a: "decimal_int (dec n)" for n
  proof -
    obtain c r where cr: "dec n = c # r" and c: "is_digit c" using hd_dec_digit by blast
    have c': "c \<noteq> CHR ''-''" using c not_digit_minus by auto
    show ?thesis using cr c' dec_digits [of n] by (simp add: decimal_int_def)
  qed
  have b: "decimal_int (CHR ''-'' # dec n)" for n
    using dec_digits [of n] dec_nonempty [of n] by (simp add: decimal_int_def)
  show ?thesis using a b by (simp add: fmt_d_def)
qed

lemma fixed4_zero: "fixed4 (scaled4 0 0) = ''0.0000''"
  by (simp add: scaled4_def fixed4_def dec_0 digit_char_def)

lemma fmt_d_0: "fmt_d 0 = ''0''"
  by (simp add: fmt_d_def dec_0)

lemma fmt_d_2: "fmt_d 2 = ''2''"
  by (simp add: fmt_d_def dec_2)

lemma fmt_d_small: "n < 2 ^ 31 \<Longrightarrow> fmt_d (of_nat n) = dec n"
proof -
  assume n: "n < 2 ^ 31"
  then have "sint (of_nat n :: 32 word) = int n"
    by (simp add: signed_of_nat signed_take_bit_int_eq_self)
  then show ?thesis by (simp add: fmt_d_def)
qed

lemma word32_wraps: "(4294967296 :: 32 word) = 0"
  by (simp add: word_eq_iff_unsigned [where ?'a = nat] unsigned_numeral take_bit_eq_mod)

subsection \<open>A row and its fields\<close>

lemma format_row_eq: "format_row E vec = Some (join (row_fields E vec) @ ''\<newline>'')"
  by (simp add: format_row_def row_format_def row_fields_def)

lemma split_on_plain: "s \<notin> set a \<Longrightarrow> split_on s a = [a]"
  by (induction a) auto

lemma split_on_sep: "s \<notin> set a \<Longrightarrow> split_on s (a @ s # r) = a # split_on s r"
  by (induction a) auto

lemma split_on_join:
  "fs \<noteq> [] \<Longrightarrow> list_all (\<lambda>f. s \<notin> set f) fs \<Longrightarrow> s = CHR '','' \<Longrightarrow> split_on s (join fs) = fs"
proof (induction fs rule: join.induct)
  case 1
  then show ?case by simp
next
  case (2 f)
  then show ?case by (simp add: split_on_plain)
next
  case (3 f g fs)
  then show ?case by (simp add: split_on_sep)
qed

lemma is_digit_field_char: "is_digit c \<Longrightarrow> field_char c"
  by (auto simp: is_digit_def field_char_def)

lemma digits_field_chars: "list_all is_digit s \<Longrightarrow> list_all field_char s"
  by (induction s) (auto simp: is_digit_field_char)

lemma dec_field_chars: "list_all field_char (dec n)"
  by (rule digits_field_chars) (rule dec_digits)

lemma fmt_d_field_chars: "list_all field_char (fmt_d i)"
  using dec_field_chars by (simp add: fmt_d_def field_char_def)

lemma fmt_f4_field_chars: "list_all field_char (fmt_f4 x)"
proof (cases x)
  case (Finite s m e)
  have "list_all field_char (fixed4 q)" for q
    using dec_field_chars [of "q div 10000"]
    by (simp add: fixed4_def is_digit_field_char digit_char_is_digit) (simp add: field_char_def)
  moreover have "list_all field_char (sign_str s)" by (simp add: sign_str_def field_char_def)
  ultimately show ?thesis using Finite by simp
next
  case (Infinite s)
  then show ?thesis by (simp add: sign_str_def field_char_def)
next
  case (NaN s)
  then show ?thesis by (simp add: sign_str_def field_char_def)
qed

lemma state_name_field_chars: "list_all field_char (state_name E s)"
  by (simp add: state_name_def field_char_def)

lemma row_fields_field_chars: "list_all (list_all field_char) (row_fields E vec)"
  by (simp add: row_fields_def fmt_f4_field_chars fmt_d_field_chars state_name_field_chars)

lemma field_chars_no_comma: "list_all field_char f \<Longrightarrow> CHR '','' \<notin> set f"
  by (auto simp: list_all_iff field_char_def)

lemma field_chars_no_newline: "list_all field_char f \<Longrightarrow> CHR ''\<newline>'' \<notin> set f"
  by (auto simp: list_all_iff field_char_def)

lemma row_fields_no_comma: "list_all (\<lambda>f. CHR '','' \<notin> set f) (row_fields E vec)"
  using row_fields_field_chars [of E vec]
  by (auto simp: list_all_iff field_char_def)

lemma split_row: "split_on CHR '','' (join (row_fields E vec)) = row_fields E vec"
  by (rule split_on_join) (simp_all add: row_fields_no_comma, simp add: row_fields_def)

lemma set_join: "set (join fs) \<subseteq> insert CHR '','' (\<Union> (set ` set fs))"
  by (induction fs rule: join.induct) auto

lemma join_no_newline: "list_all (list_all field_char) fs \<Longrightarrow> CHR ''\<newline>'' \<notin> set (join fs)"
proof
  assume a: "list_all (list_all field_char) fs" and b: "CHR ''\<newline>'' \<in> set (join fs)"
  from b set_join [of fs] have "CHR ''\<newline>'' \<in> \<Union> (set ` set fs)" by auto
  then obtain f where "f \<in> set fs" "CHR ''\<newline>'' \<in> set f" by auto
  with a show False by (auto simp: list_all_iff field_char_def)
qed

lemma length_join: "length (join fs) = sum_list (map length fs) + (length fs - 1)"
  by (induction fs rule: join.induct) auto

subsection \<open>A row fits into \<^verbatim>\<open>record[1024]\<close>\<close>

lemma scaled4_bound:
  assumes "fits_float32 (Finite s m e)"
  shows "scaled4 m e div 10000 \<le> 2 ^ 128"
proof (cases "0 \<le> e")
  case True
  with assms show ?thesis by (simp add: scaled4_def)
next
  case False
  define d :: nat where "d = 2 ^ nat (- e)"
  have d: "0 < d" by (simp add: d_def)
  have m: "m < 2 ^ 128 * d" using assms False by (simp add: d_def)
  then have "m * 10000 < (2 ^ 128 * 10000) * d" by simp
  then have q: "m * 10000 div d < 2 ^ 128 * 10000"
    using d by (simp add: less_mult_imp_div_less)
  have "scaled4 m e \<le> m * 10000 div d + 1"
    using False by (simp add: scaled4_def Let_def d_def)
  with q have "scaled4 m e \<le> 2 ^ 128 * 10000" by linarith
  then have "scaled4 m e div 10000 \<le> (2 ^ 128 * 10000) div 10000" by (rule div_le_mono)
  then show ?thesis by simp
qed

lemma length_fixed4: "q div 10000 < 10 ^ 39 \<Longrightarrow> length (fixed4 q) \<le> 44"
  using dec_length [of 39 "q div 10000"] by (simp add: fixed4_def)

lemma length_sign_str: "length (sign_str s) \<le> 1"
  by (simp add: sign_str_def)

lemma length_fmt_f4: "fits_float32 x \<Longrightarrow> length (fmt_f4 x) \<le> 45"
proof (cases x)
  case (Finite s m e)
  assume "fits_float32 x"
  with Finite have "scaled4 m e div 10000 \<le> 2 ^ 128" using scaled4_bound by simp
  also have "(2::nat) ^ 128 < 10 ^ 39" by simp
  finally have "length (fixed4 (scaled4 m e)) \<le> 44" by (rule length_fixed4)
  with Finite length_sign_str [of s] show ?thesis by simp
next
  case (Infinite s)
  with length_sign_str [of s] show ?thesis by simp
next
  case (NaN s)
  with length_sign_str [of s] show ?thesis by simp
qed

lemma length_fmt_d: "length (fmt_d i) \<le> 11"
proof -
  have lo: "- (2 ^ 31) \<le> sint i" using sint_ge [of i] by simp
  have hi: "sint i < 2 ^ 31" using sint_lt [of i] by simp
  have p: "(2::nat) ^ 31 < 10 ^ 10" by simp
  show ?thesis
  proof (cases "sint i < 0")
    case True
    have "nat (- sint i) \<le> 2 ^ 31" using lo by simp
    then have "nat (- sint i) < 10 ^ 10" using p by linarith
    then have "length (dec (nat (- sint i))) \<le> 10" by (intro dec_length) simp_all
    with True show ?thesis by (simp add: fmt_d_def)
  next
    case False
    have "nat (sint i) < 2 ^ 31" using hi False by simp
    then have "nat (sint i) < 10 ^ 10" using p by linarith
    then have "length (dec (nat (sint i))) \<le> 10" by (intro dec_length) simp_all
    with False show ?thesis by (simp add: fmt_d_def)
  qed
qed

lemma length_state_name: "length (state_name E s) \<le> 8"
  by (simp add: state_name_def)

lemma length_row:
  assumes "list_all fits_float32 (float_fields vec)"
  shows "length (join (row_fields E vec) @ ''\<newline>'') \<le> 895"
proof -
  note f = length_fmt_f4
  have l: "length (fmt_f4 (time vec)) \<le> 45" "length (fmt_f4 (altitude vec)) \<le> 45"
    "length (fmt_f4 (velocity vec)) \<le> 45" "length (fmt_f4 (acceleration vec)) \<le> 45"
    "length (fmt_f4 (pressure vec)) \<le> 45" "length (fmt_f4 (temperature vec)) \<le> 45"
    "length (fmt_f4 (baro_altitude vec)) \<le> 45" "length (fmt_f4 (accel_x vec)) \<le> 45"
    "length (fmt_f4 (accel_y vec)) \<le> 45" "length (fmt_f4 (accel_z vec)) \<le> 45"
    "length (fmt_f4 (accel_vertical vec)) \<le> 45" "length (fmt_f4 (gyro_x vec)) \<le> 45"
    "length (fmt_f4 (gyro_y vec)) \<le> 45" "length (fmt_f4 (gyro_z vec)) \<le> 45"
    "length (fmt_f4 (quat_w vec)) \<le> 45" "length (fmt_f4 (quat_x vec)) \<le> 45"
    "length (fmt_f4 (quat_y vec)) \<le> 45" "length (fmt_f4 (quat_z vec)) \<le> 45"
    "length (fmt_f4 (launchpad_altitude vec)) \<le> 45"
    using assms by (simp_all add: float_fields_def f)
  show ?thesis
    using l length_fmt_d [of "imu_temp vec"] length_state_name [of E "state vec"]
    by (simp add: length_join row_fields_def)
qed

lemma format_row_text: "format_row (VehicleState H) (load_vec H r) = Some (row_text H r)"
  by (simp add: format_row_eq row_text_def)

lemma row_text_fits: "binary32_fields H \<Longrightarrow> length (row_text H r) < 1024"
proof -
  assume "binary32_fields H"
  then have "list_all fits_float32 (float_fields (load_vec H r))"
    by (simp add: binary32_fields_def)
  then have "length (row_text H r) \<le> 895" unfolding row_text_def by (rule length_row)
  then show ?thesis by simp
qed

subsection \<open>The loop, record by record\<close>

lemma complete_records_short: "\<not> (0 < n \<and> n \<le> length bs) \<Longrightarrow> complete_records n bs = []"
  by (subst complete_records.simps) simp

lemma complete_records_step:
  "0 < n \<Longrightarrow> n \<le> length bs \<Longrightarrow>
   complete_records n bs = take n bs # complete_records n (drop n bs)"
  by (subst complete_records.simps) simp

lemma main_loop_end:
  "\<not> (0 < sizeof_vec H \<and> sizeof_vec H \<le> length bs) \<Longrightarrow> main_loop H bs c out = (None, c, out)"
  by (subst main_loop.simps) (auto simp: fread_vec_def)

lemma main_loop_step:
  assumes "binary32_fields H" "0 < sizeof_vec H" "sizeof_vec H \<le> length bs"
  shows "main_loop H bs c out =
         main_loop H (drop (sizeof_vec H) bs) (c + 1) (out @ row_text H (take (sizeof_vec H) bs))"
  using assms row_text_fits [OF assms(1)]
  by (subst main_loop.simps) (simp add: fread_vec_def format_row_text)

lemma main_loop_records:
  assumes H: "binary32_fields H"
  shows "main_loop H bs c out =
         (None, c + of_nat (length (complete_records (sizeof_vec H) bs)),
          out @ concat (map (row_text H) (complete_records (sizeof_vec H) bs)))"
proof (induction "sizeof_vec H" bs arbitrary: c out rule: complete_records.induct)
  case (1 bs)
  show ?case
  proof (cases "0 < sizeof_vec H \<and> sizeof_vec H \<le> length bs")
    case True
    then have a: "0 < sizeof_vec H" and b: "sizeof_vec H \<le> length bs" by simp_all
    show ?thesis
      unfolding main_loop_step [OF H a b] complete_records_step [OF a b]
      by (simp add: "1" [OF True])
  next
    case False
    then show ?thesis by (simp add: main_loop_end complete_records_short)
  qed
qed

lemma length_complete_records: "length (complete_records n bs) = length bs div n"
proof (induction n bs rule: complete_records.induct)
  case (1 n bs)
  show ?case
  proof (cases "0 < n \<and> n \<le> length bs")
    case True
    then have a: "0 < n" and b: "n \<le> length bs" by simp_all
    have "length bs div n = Suc ((length bs - n) div n)"
      using a b by (simp add: le_div_geq)
    then show ?thesis
      unfolding complete_records_step [OF a b] using "1" [OF True] by simp
  next
    case False
    then show ?thesis by (auto simp: complete_records_short)
  qed
qed

lemma concat_complete_records:
  "concat (complete_records n bs) = take (n * (length bs div n)) bs"
proof (induction n bs rule: complete_records.induct)
  case (1 n bs)
  show ?case
  proof (cases "0 < n \<and> n \<le> length bs")
    case True
    then have a: "0 < n" and b: "n \<le> length bs" by simp_all
    have d: "length bs div n = Suc ((length bs - n) div n)"
      using a b by (simp add: le_div_geq)
    have "take (n + n * ((length bs - n) div n)) bs
          = take n bs @ take (n * ((length bs - n) div n)) (drop n bs)"
      by (simp add: take_add)
    then show ?thesis
      unfolding complete_records_step [OF a b] using "1" [OF True] d by simp
  next
    case False
    then show ?thesis by (auto simp: complete_records_short)
  qed
qed

lemma complete_records_append_fragment:
  "length frag < n \<Longrightarrow> length bs mod n = 0 \<Longrightarrow> complete_records n (bs @ frag) = complete_records n bs"
proof (induction n bs rule: complete_records.induct)
  case (1 n bs)
  show ?case
  proof (cases "0 < n \<and> n \<le> length bs")
    case True
    then have a: "0 < n" and b: "n \<le> length bs" by simp_all
    have m: "length (drop n bs) mod n = 0" using "1.prems"(2) b by (simp add: le_mod_geq)
    have "complete_records n (bs @ frag) = take n bs # complete_records n (drop n bs @ frag)"
      using a b by (subst complete_records.simps) simp
    then show ?thesis
      unfolding complete_records_step [OF a b] using "1.IH" [OF True "1.prems"(1) m] by simp
  next
    case False
    then have "bs = []" using "1.prems" by (cases "n = 0") (auto simp: not_le)
    then show ?thesis using "1.prems" by (simp add: complete_records_short)
  qed
qed

subsection \<open>Lines of the output\<close>

lemma count_lines_row_text: "count_lines (row_text H r) = 1"
proof -
  have "CHR ''\<newline>'' \<notin> set (join (row_fields (VehicleState H) (load_vec H r)))"
    by (rule join_no_newline) (rule row_fields_field_chars)
  then have "filter (\<lambda>c. c = CHR ''\<newline>'') (join (row_fields (VehicleState H) (load_vec H r))) = []"
    by (auto simp: filter_empty_conv)
  then show ?thesis by (simp add: count_lines_def row_text_def)
qed

lemma count_lines_append: "count_lines (a @ b) = count_lines a + count_lines b"
  by (simp add: count_lines_def)

lemma count_lines_rows: "count_lines (concat (map (row_text H) rs)) = length rs"
  by (induction rs) (simp_all add: count_lines_append count_lines_row_text, simp add: count_lines_def)

lemma length_header_row: "length header_row = 225"
  by (simp add: header_row_def)

lemma count_lines_header: "count_lines header_row = 1"
  by (simp add: count_lines_def header_row_def)

subsection \<open>A run that returns\<close>

lemma main_returns:
  assumes "binary32_fields H" "files w av1 = Some bytes" "writable w (av1 @ ''.csv'')"
  shows "main H av1 w =
         Returned (w\<lparr>files := (files w)(av1 @ ''.csv'' \<mapsto>
                        header_row @ concat (map (row_text H) (complete_records (sizeof_vec H) bytes))),
                     console := console w @ ''Decoded '' @
                        fmt_d (of_nat (length bytes div sizeof_vec H)) @ '' telemetry packets\<newline>''\<rparr>)"
  using assms
  by (simp add: main_def fopen_rb_def fopen_w_def main_loop_records length_complete_records)

lemma main_null_input:
  "fopen_rb w av1 = None \<Longrightarrow>
   main H av1 w =
     (if writable w (av1 @ ''.csv'')
      then Undefined NullStream (w\<lparr>files := (files w)(av1 @ ''.csv'' \<mapsto> [])\<rparr>) header_row
      else Undefined NullStream w [])"
  by (simp add: main_def fopen_w_def)

lemma main_loop_nil: "main_loop H [] c out = (None, c, out)"
  by (rule main_loop_end) auto

lemma main_empty:
  "files w av1 = Some [] \<Longrightarrow> writable w (av1 @ ''.csv'') \<Longrightarrow>
   main H av1 w = Returned (w\<lparr>files := (files w)(av1 @ ''.csv'' \<mapsto> header_row),
                              console := console w @ ''Decoded 0 telemetry packets\<newline>''\<rparr>)"
  by (simp add: main_def fopen_rb_def fopen_w_def main_loop_nil fmt_d_0)

text \<open>Runs with links: without links they are those of \<open>main\<close>.\<close>

lemma main_linked_id: "main_linked H id av1 w = main H av1 w"
proof (cases "files w av1")
  case None
  then show ?thesis
    by (cases "writable w (av1 @ ''.csv'')")
      (simp_all add: main_linked_def main_def fopen_rb_at_def fopen_w_at_def fopen_rb_def
        fopen_w_def Let_def)
next
  case (Some bytes)
  then show ?thesis
    by (cases "writable w (av1 @ ''.csv'')")
      (simp_all add: main_linked_def main_def fopen_rb_at_def fopen_w_at_def fopen_rb_def
        fopen_w_def unread_def Let_def)
qed



subsection \<open>The packed header and its records\<close>

lemma fits_binary32: "fits_float32 (binary32 w)"
proof -
  have fr: "w mod 2 ^ 23 < 2 ^ 23" by simp
  have a: "fits_float32 (Finite s (w mod 2 ^ 23) (- 149))" for s
    using fr by simp
  have b: "fits_float32 (Finite s (2 ^ 23 + w mod 2 ^ 23) (int ex - 150))" if "ex < 255" for s ex
  proof (cases "150 \<le> ex")
    case True
    have m: "2 ^ 23 + w mod 2 ^ 23 < (2::nat) ^ 24" using fr by simp
    have "nat (int ex - 150) \<le> 104" using that by simp
    then have "(2::nat) ^ nat (int ex - 150) \<le> 2 ^ 104" by (rule power_increasing) simp
    then have "(2 ^ 23 + w mod 2 ^ 23) * 2 ^ nat (int ex - 150) < 2 ^ 24 * (2::nat) ^ 104"
      using m by (intro mult_less_le_imp_less) simp_all
    then show ?thesis using True by simp
  next
    case False
    have "2 ^ 23 + w mod 2 ^ 23 < (2::nat) ^ 128" using fr by simp
    also have "\<dots> \<le> 2 ^ 128 * 2 ^ nat (150 - int ex)" by simp
    finally show ?thesis using False by simp
  qed
  define ex where "ex = w div 2 ^ 23 mod 256"
  have ex: "ex < 256" by (simp add: ex_def)
  have c: "binary32 w =
     (if ex = 255 then (if w mod 2 ^ 23 = 0 then Infinite (odd (w div 2 ^ 31))
                        else NaN (odd (w div 2 ^ 31)))
      else if ex = 0 then Finite (odd (w div 2 ^ 31)) (w mod 2 ^ 23) (- 149)
      else Finite (odd (w div 2 ^ 31)) (2 ^ 23 + w mod 2 ^ 23) (int ex - 150))"
    unfolding binary32_def Let_def ex_def by (rule refl)
  show ?thesis
  proof (cases "ex = 255")
    case True
    then show ?thesis unfolding c by simp
  next
    case False
    then have "ex < 255" using ex by simp
    note b' = b [OF this]
    show ?thesis
    proof (cases "ex = 0")
      case True
      have "binary32 w = Finite (odd (w div 2 ^ 31)) (w mod 2 ^ 23) (- 149)"
        unfolding c by (simp only: True False if_True if_False) simp
      then show ?thesis by (simp only: a)
    next
      case nz: False
      have "binary32 w = Finite (odd (w div 2 ^ 31)) (2 ^ 23 + w mod 2 ^ 23) (int ex - 150)"
        unfolding c by (simp only: nz False if_False)
      then show ?thesis by (simp only: b')
    qed
  qed
qed

lemma binary32_fields_packed: "binary32_fields packed_header"
  by (simp add: binary32_fields_def packed_header_def packed_load_def float_fields_def
      fits_binary32)

lemma format_row_nan_vec: "format_row default_states nan_vec =
  Some ''nan,PRELTOFF,0.0000,0.0000,0.0000,0.0000,0.0000,0.0000,0,0.0000,0.0000,0.0000,0.0000,0.0000,0.0000,0.0000,0.0000,0.0000,0.0000,0.0000,0.0000\<newline>''"
  by (simp add: format_row_eq row_fields_def nan_vec_def zero_vec_def fixed4_zero fmt_d_0
      state_name_def default_states_def sign_str_def)

lemma byte_at_record_in_state:
  "byte_at (record_in_state c) i = (if i = 4 then of_char c else 0)"
  by (auto simp: byte_at_def record_in_state_def nth_append nth_Cons')

lemma le32_record_in_state:
  "i + 3 < 4 \<or> 4 < i \<Longrightarrow> le32 (record_in_state c) i = 0"
  by (auto simp: le32_def byte_at_record_in_state)

lemma binary32_0: "binary32 0 = Finite False 0 (- 149)"
  by (simp add: binary32_def)

lemma fmt_binary32_0: "fmt_f4 (binary32 0) = ''0.0000''"
  by (simp add: binary32_0 scaled4_def fixed4_def sign_str_def dec_0 digit_char_def)

lemma packed_load_record_in_state:
  "row_fields E (packed_load (record_in_state c)) =
     [''0.0000'', state_name E (of_nat (of_char c)), ''0.0000'', ''0.0000'', ''0.0000'',
      ''0.0000'', ''0.0000'', ''0.0000'', ''0'', ''0.0000'', ''0.0000'', ''0.0000'', ''0.0000'',
      ''0.0000'', ''0.0000'', ''0.0000'', ''0.0000'', ''0.0000'', ''0.0000'', ''0.0000'', ''0.0000'']"
  by (simp add: row_fields_def packed_load_def le32_record_in_state byte_at_record_in_state
      fmt_binary32_0 fmt_d_0)

lemma length_record_in_state: "length (record_in_state c) = 81"
  by (simp add: record_in_state_def)

lemma complete_records_cons:
  "0 < n \<Longrightarrow> length r = n \<Longrightarrow> complete_records n (r @ rest) = r # complete_records n rest"
  by (subst complete_records.simps) simp

lemma complete_records_single:
  "0 < n \<Longrightarrow> length r = n \<Longrightarrow> complete_records n r = [r]"
  by (subst complete_records.simps) (simp add: complete_records_short)

lemma complete_records_two:
  "complete_records 81 (record_in_state a @ record_in_state b) =
     [record_in_state a, record_in_state b]"
  by (simp add: complete_records_cons complete_records_single length_record_in_state)

lemma row_text_record_in_state:
  "row_text packed_header (record_in_state c) =
     ''0.0000,'' @ state_name default_states (of_nat (of_char c)) @
     '',0.0000,0.0000,0.0000,0.0000,0.0000,0.0000,0,0.0000,0.0000,0.0000,0.0000,0.0000,0.0000,0.0000,0.0000,0.0000,0.0000,0.0000,0.0000\<newline>''"
  by (simp add: row_text_def packed_header_def packed_load_record_in_state)

lemma format_rows_map:
  "map (\<lambda>r. format_row (VehicleState H) (load_vec H r)) rs = map (\<lambda>r. Some (row_text H r)) rs"
  by (simp add: format_row_text)

lemma div_two: "length two_records div 81 = 2"
  by (simp add: two_records_def length_record_in_state)

text \<open>What the conversions print for some values of the packed layout.\<close>

lemma fmt_f4_examples:
  "fmt_f4 (binary32 0x3FC00000) = ''1.5000''"
  "fmt_f4 (binary32 0xC2F6E979) = ''-123.4560''"
  "fmt_f4 (binary32 0x3E200000) = ''0.1562''"
  "fmt_f4 (binary32 0x7F800000) = ''inf''"
  "fmt_f4 (binary32 0xFFC00000) = ''-nan''"
  "fmt_f4 (binary32 0x7F7FFFFF) = ''340282346638528859811704183484516925440.0000''"
  "fmt_f4 (binary32 0x80000001) = ''-0.0000''"
  by (simp_all add: binary32_def scaled4_def fixed4_def sign_str_def dec.simps digit_char_def)

lemma fmt_d_examples:
  "fmt_d 25 = ''25''" "fmt_d (- 40) = ''-40''" "fmt_d 2147483648 = ''-2147483648''"
  by (simp_all add: fmt_d_def dec.simps digit_char_def)

subsection \<open>Dumps of \<open>2\<^sup>3\<^sup>1\<close> and \<open>2\<^sup>3\<^sup>2\<close> records\<close>

lemma length_half_dump: "length half_dump = 81 * 2 ^ 31"
  by (simp add: half_dump_def)

lemma length_huge_dump: "length huge_dump = 81 * 2 ^ 32"
  by (simp add: huge_dump_def)

lemma length_huge_dump_fragment: "length huge_dump_fragment = 81 * 2 ^ 32 + 1"
  by (simp add: huge_dump_fragment_def length_huge_dump)

lemma main_huge_dump:
  assumes "length bytes div 81 = 2 ^ 32"
  shows "main packed_header ''TELEM.DAT'' (world_with ''TELEM.DAT'' bytes) =
     Returned (world_with ''TELEM.DAT'' bytes
       \<lparr>files := (files (world_with ''TELEM.DAT'' bytes))(''TELEM.DAT.csv'' \<mapsto>
           header_row @ concat (map (row_text packed_header) (complete_records 81 bytes))),
        console := ''Decoded 0 telemetry packets\<newline>''\<rparr>)"
proof -
  have a: "files (world_with ''TELEM.DAT'' bytes) ''TELEM.DAT'' = Some bytes"
    by (simp add: world_with_def)
  have b: "writable (world_with ''TELEM.DAT'' bytes) (''TELEM.DAT'' @ ''.csv'')"
    by (simp add: world_with_def empty_world_def)
  have s: "sizeof_vec packed_header = 81" by (simp add: packed_header_def)
  have c: "console (world_with ''TELEM.DAT'' bytes) = []"
    by (simp add: world_with_def empty_world_def)
  show ?thesis
    unfolding main_returns [OF binary32_fields_packed a b] s assms
    by (simp add: c fmt_d_0 word32_wraps)
qed

subsection \<open>The stream without its trailing fragment\<close>

lemma complete_records_whole:
  "complete_records n (take (n * (length bs div n)) bs) = complete_records n bs"
proof (cases "0 < n")
  case True
  let ?w = "take (n * (length bs div n)) bs" and ?f = "drop (n * (length bs div n)) bs"
  have le: "n * (length bs div n) \<le> length bs" by simp
  have a: "length ?f < n"
    using True by (simp add: minus_mult_div_eq_mod)
  have b: "length ?w mod n = 0" using le by (simp add: min_absorb2)
  from complete_records_append_fragment [OF a b] show ?thesis by simp
next
  case False
  then show ?thesis by (simp add: complete_records_short)
qed

lemma length_whole: "length (take (n * (length bs div n)) bs) div n = length bs div n"
  by (cases "0 < n") (simp_all add: min_absorb2)

subsection \<open>Steps of the loop\<close>





section \<open>The claims\<close>

text \<open>
  C1, amended.  For every struct the \<^verbatim>\<open>sprintf\<close> call yields one row: a body without
  newline, followed by one newline.  Split at the commas, the body has exactly these 21
  fields in this order, the second being the label of the state and the ninth a plain
  decimal integer.  A floating-point field is in fixed-point notation with exactly four
  digits after the point when its value is finite; an infinity or a NaN prints as
  \<^verbatim>\<open>inf\<close> or \<^verbatim>\<open>nan\<close>, with a minus sign when its sign bit is set.
\<close>

theorem format_row_fields:
  "\<exists>body. format_row E vec = Some (body @ ''\<newline>'') \<and> CHR ''\<newline>'' \<notin> set body \<and>
     split_on CHR '','' body =
       [fmt_f4 (time vec), state_name E (state vec), fmt_f4 (altitude vec),
        fmt_f4 (velocity vec), fmt_f4 (acceleration vec), fmt_f4 (pressure vec),
        fmt_f4 (temperature vec), fmt_f4 (baro_altitude vec), fmt_d (imu_temp vec),
        fmt_f4 (accel_x vec), fmt_f4 (accel_y vec), fmt_f4 (accel_z vec),
        fmt_f4 (accel_vertical vec), fmt_f4 (gyro_x vec), fmt_f4 (gyro_y vec),
        fmt_f4 (gyro_z vec), fmt_f4 (quat_w vec), fmt_f4 (quat_x vec), fmt_f4 (quat_y vec),
        fmt_f4 (quat_z vec), fmt_f4 (launchpad_altitude vec)] \<and>
     length (split_on CHR '','' body) = 21 \<and>
     decimal_int (fmt_d (imu_temp vec)) \<and>
     list_all (\<lambda>x. if is_finite x then fixed_point4 (fmt_f4 x)
                    else fmt_f4 x \<in> {''inf'', ''-inf'', ''nan'', ''-nan''}) (float_fields vec)"
proof -
  define body where "body = join (row_fields E vec)"
  define P where "P = (\<lambda>x. if is_finite x then fixed_point4 (fmt_f4 x)
                    else fmt_f4 x \<in> {''inf'', ''-inf'', ''nan'', ''-nan''})"
  have a: "format_row E vec = Some (body @ ''\<newline>'')"
    unfolding body_def by (rule format_row_eq)
  have b: "CHR ''\<newline>'' \<notin> set body"
    unfolding body_def by (rule join_no_newline) (rule row_fields_field_chars)
  have c: "split_on CHR '','' body = row_fields E vec"
    unfolding body_def by (rule split_row)
  have d: "length (split_on CHR '','' body) = 21"
    unfolding c by (simp add: row_fields_def)
  have e: "P x" for x
  proof (cases x)
    case (Finite s m e)
    then show ?thesis by (simp add: P_def fixed_point4_fixed4)
  next
    case (Infinite s)
    then show ?thesis by (simp add: P_def sign_str_def)
  next
    case (NaN s)
    then show ?thesis by (simp add: P_def sign_str_def)
  qed
  have f: "list_all P (float_fields vec)"
    by (simp add: list_all_iff e)
  show ?thesis
    using a b c [unfolded row_fields_def] d decimal_int_fmt_d [of "imu_temp vec"]
      f [unfolded P_def]
    by (intro exI [of _ body] conjI)
qed

text \<open>
  C1 as stated fails for a struct whose time is a NaN: its first field is \<^verbatim>\<open>nan\<close>.
\<close>

theorem format_row_nan_counterexample:
  "format_row default_states nan_vec =
     Some ''nan,PRELTOFF,0.0000,0.0000,0.0000,0.0000,0.0000,0.0000,0,0.0000,0.0000,0.0000,0.0000,0.0000,0.0000,0.0000,0.0000,0.0000,0.0000,0.0000,0.0000\<newline>'' \<and>
   fmt_f4 (time nan_vec) = ''nan'' \<and> \<not> fixed_point4 (fmt_f4 (time nan_vec))"
  by (simp add: format_row_nan_vec) (simp add: nan_vec_def sign_str_def fixed_point4_def is_digit_def)

text \<open>
  C2.  \<^verbatim>\<open>state_name\<close> is total: each of the seven enumerators has its own label, the
  seven labels are distinct and none is the sentinel, and every other code has the label
  \<^verbatim>\<open>UNKNOWN\<close>.  The enumerators are distinct, as the case labels of a \<^verbatim>\<open>switch\<close> must
  be.
\<close>

theorem state_name_total:
  assumes "distinct_states E"
  shows "state_name E (PRELTOFF E) = ''PRELTOFF'' \<and> state_name E (PWFLIGHT E) = ''PWFLIGHT'' \<and>
         state_name E (CRUISING E) = ''CRUISING'' \<and> state_name E (CRSCANRD E) = ''CRSCANRD'' \<and>
         state_name E (FALLDROG E) = ''FALLDROG'' \<and> state_name E (FALLMAIN E) = ''FALLMAIN'' \<and>
         state_name E (CONCLUDE E) = ''CONCLUDE'' \<and>
         distinct (map (state_name E) (states E)) \<and>
         (\<forall>c. c \<notin> set (states E) \<longrightarrow> state_name E c = ''UNKNOWN'') \<and>
         (\<forall>c. c \<in> set (states E) \<longrightarrow> state_name E c \<noteq> ''UNKNOWN'')"
proof -
  from assms have d: "distinct [PRELTOFF E, PWFLIGHT E, CRUISING E, CRSCANRD E, FALLDROG E,
      FALLMAIN E, CONCLUDE E]"
    by (simp add: distinct_states_def states_def)
  have 1: "state_name E (PRELTOFF E) = ''PRELTOFF''" by (simp add: state_name_def)
  have 2: "state_name E (PWFLIGHT E) = ''PWFLIGHT''" using d by (auto simp: state_name_def)
  have 3: "state_name E (CRUISING E) = ''CRUISING''" using d by (auto simp: state_name_def)
  have 4: "state_name E (CRSCANRD E) = ''CRSCANRD''" using d by (auto simp: state_name_def)
  have 5: "state_name E (FALLDROG E) = ''FALLDROG''" using d by (auto simp: state_name_def)
  have 6: "state_name E (FALLMAIN E) = ''FALLMAIN''" using d by (auto simp: state_name_def)
  have 7: "state_name E (CONCLUDE E) = ''CONCLUDE''" using d by (auto simp: state_name_def)
  have 8: "distinct (map (state_name E) (states E))"
    by (simp add: states_def 1 2 3 4 5 6 7)
  have 9: "\<forall>c. c \<notin> set (states E) \<longrightarrow> state_name E c = ''UNKNOWN''"
    by (simp add: states_def state_name_def)
  have 10: "\<forall>c. c \<in> set (states E) \<longrightarrow> state_name E c \<noteq> ''UNKNOWN''"
    using 1 2 3 4 5 6 7 by (auto simp: states_def)
  from 1 2 3 4 5 6 7 8 9 10 show ?thesis by blast
qed

text \<open>For the enumerators numbered from 0: the codes 1 and 6, and the code 200 outside.\<close>

theorem state_name_total_witness:
  "distinct_states default_states \<and> state_name default_states 1 = ''PWFLIGHT'' \<and>
   state_name default_states 6 = ''CONCLUDE'' \<and> state_name default_states 200 = ''UNKNOWN''"
proof -
  have d: "distinct_states default_states"
    by (simp add: distinct_states_def states_def default_states_def)
  note t = state_name_total [OF d]
  from t have "state_name default_states (PWFLIGHT default_states) = ''PWFLIGHT''" by blast
  then have a: "state_name default_states 1 = ''PWFLIGHT''" by (simp add: default_states_def)
  from t have "state_name default_states (CONCLUDE default_states) = ''CONCLUDE''" by blast
  then have b: "state_name default_states 6 = ''CONCLUDE''" by (simp add: default_states_def)
  from t have "200 \<notin> set (states default_states) \<longrightarrow> state_name default_states 200 = ''UNKNOWN''"
    by blast
  then have c: "state_name default_states 200 = ''UNKNOWN''"
    by (simp add: states_def default_states_def)
  from d a b c show ?thesis by blast
qed

text \<open>
  C3, amended.  When the input cannot be opened, \<^verbatim>\<open>main\<close> does not test the null
  pointer: it opens the output file all the same (creating or truncating it), hands the
  header row to the output stream and then calls \<^verbatim>\<open>fread\<close> on the null stream, which is
  undefined behaviour.  When the output cannot be opened either, the first \<^verbatim>\<open>fputs\<close> is
  undefined.  No path of \<^verbatim>\<open>main\<close> reports the failure.
\<close>

theorem main_input_not_opened:
  assumes "fopen_rb w av1 = None"
  shows "main H av1 w =
     (if writable w (av1 @ ''.csv'')
      then Undefined NullStream (w\<lparr>files := (files w)(av1 @ ''.csv'' \<mapsto> [])\<rparr>) header_row
      else Undefined NullStream w [])"
  using assms by (rule main_null_input)

text \<open>In the world without files, run on the packed header.\<close>

theorem main_input_not_opened_witness:
  "fopen_rb empty_world ''TELEM.DAT'' = None \<and>
   main packed_header ''TELEM.DAT'' empty_world =
     Undefined NullStream (world_with ''TELEM.DAT.csv'' []) header_row"
proof -
  have a: "fopen_rb empty_world ''TELEM.DAT'' = None" by (simp add: fopen_rb_def empty_world_def)
  from main_input_not_opened [OF a, of packed_header] a show ?thesis
    by (simp add: empty_world_def world_with_def)
qed

text \<open>
  C3 as stated fails where no file exists: the output file has been created and the header
  handed to its stream when the run becomes undefined, and nothing was printed.
\<close>

theorem main_input_not_opened_counterexample:
  "fopen_rb empty_world ''TELEM.DAT'' = None \<and>
   main packed_header ''TELEM.DAT'' empty_world =
     Undefined NullStream (world_with ''TELEM.DAT.csv'' []) header_row \<and>
   files (final_world (main packed_header ''TELEM.DAT'' empty_world)) ''TELEM.DAT.csv'' = Some [] \<and>
   console (final_world (main packed_header ''TELEM.DAT'' empty_world)) = []"
proof -
  have a: "fopen_rb empty_world ''TELEM.DAT'' = None" by (simp add: fopen_rb_def empty_world_def)
  from main_null_input [OF a, of packed_header] a show ?thesis
    by (simp add: empty_world_def world_with_def)
qed

text \<open>
  C4, amended.  On an input of \<open>n\<close> complete records (\<open>n\<close> the length of the input divided
  by the size of a record) the run returns; the output file is the header row followed by
  the rows that \<^verbatim>\<open>sprintf\<close> yields for the complete records, in the order of the input,
  so it has \<open>n + 1\<close> lines.  The report prints \<open>n\<close> as the 32-bit counter holds it: reduced
  modulo \<open>2\<^sup>3\<^sup>2\<close> and printed with \<^verbatim>\<open>%d\<close>, which is the decimal numeral of \<open>n\<close> when
  \<open>n < 2\<^sup>3\<^sup>1\<close>.  The floating-point fields are those of a struct of \<^verbatim>\<open>float\<close>s, so that no
  row overflows the buffer.
\<close>

theorem main_output:
  assumes "binary32_fields H" "fopen_rb w av1 = Some bytes" "writable w (av1 @ ''.csv'')"
  shows "main H av1 w =
         Returned (w\<lparr>files := (files w)(av1 @ ''.csv'' \<mapsto>
                        header_row @ concat (map (row_text H) (complete_records (sizeof_vec H) bytes))),
                     console := console w @ ''Decoded '' @
                        fmt_d (of_nat (length bytes div sizeof_vec H)) @ '' telemetry packets\<newline>''\<rparr>) \<and>
         map (\<lambda>r. format_row (VehicleState H) (load_vec H r)) (complete_records (sizeof_vec H) bytes)
           = map (\<lambda>r. Some (row_text H r)) (complete_records (sizeof_vec H) bytes) \<and>
         concat (complete_records (sizeof_vec H) bytes)
           = take (sizeof_vec H * (length bytes div sizeof_vec H)) bytes \<and>
         length (complete_records (sizeof_vec H) bytes) = length bytes div sizeof_vec H \<and>
         count_lines (header_row @ concat (map (row_text H) (complete_records (sizeof_vec H) bytes)))
           = length bytes div sizeof_vec H + 1 \<and>
         (length bytes div sizeof_vec H < 2 ^ 31 \<longrightarrow>
            fmt_d (of_nat (length bytes div sizeof_vec H)) = dec (length bytes div sizeof_vec H)) \<and>
         header_row = ''Time,State,Filtered Altitude,Filtered Velocity,Filtered Acceleration,Pressure,Temperature,Barometer Altitude,IMU Temperature,Accel X,Accel Y,Accel Z,Accel Vertical,Gyro X,Gyro Y,Gyro Z,Quat W,Quat X,Quat Y,Quat Z,LP Altitude\<newline>''"
proof -
  have a: "files w av1 = Some bytes" using assms(2) by (simp add: fopen_rb_def)
  have h: "header_row = ''Time,State,Filtered Altitude,Filtered Velocity,Filtered Acceleration,Pressure,Temperature,Barometer Altitude,IMU Temperature,Accel X,Accel Y,Accel Z,Accel Vertical,Gyro X,Gyro Y,Gyro Z,Quat W,Quat X,Quat Y,Quat Z,LP Altitude\<newline>''"
    by (simp add: header_row_def)
  have "main H av1 w =
         Returned (w\<lparr>files := (files w)(av1 @ ''.csv'' \<mapsto>
                        header_row @ concat (map (row_text H) (complete_records (sizeof_vec H) bytes))),
                     console := console w @ ''Decoded '' @
                        fmt_d (of_nat (length bytes div sizeof_vec H)) @ '' telemetry packets\<newline>''\<rparr>) \<and>
         map (\<lambda>r. format_row (VehicleState H) (load_vec H r)) (complete_records (sizeof_vec H) bytes)
           = map (\<lambda>r. Some (row_text H r)) (complete_records (sizeof_vec H) bytes) \<and>
         concat (complete_records (sizeof_vec H) bytes)
           = take (sizeof_vec H * (length bytes div sizeof_vec H)) bytes \<and>
         length (complete_records (sizeof_vec H) bytes) = length bytes div sizeof_vec H \<and>
         count_lines (header_row @ concat (map (row_text H) (complete_records (sizeof_vec H) bytes)))
           = length bytes div sizeof_vec H + 1 \<and>
         (length bytes div sizeof_vec H < 2 ^ 31 \<longrightarrow>
            fmt_d (of_nat (length bytes div sizeof_vec H)) = dec (length bytes div sizeof_vec H))"
    using main_returns [OF assms(1) a assms(3)]
    by (simp add: format_rows_map concat_complete_records length_complete_records
        count_lines_append count_lines_header count_lines_rows fmt_d_small)
  with h show ?thesis by blast
qed

text \<open>The run on the two records: three lines and a count of 2.\<close>

theorem main_output_witness:
  "binary32_fields packed_header \<and>
   fopen_rb (world_with ''TELEM.DAT'' two_records) ''TELEM.DAT'' = Some two_records \<and>
   files (final_world (main packed_header ''TELEM.DAT'' (world_with ''TELEM.DAT'' two_records)))
     ''TELEM.DAT.csv'' =
     Some (header_row @
       ''0.0000,PWFLIGHT,0.0000,0.0000,0.0000,0.0000,0.0000,0.0000,0,0.0000,0.0000,0.0000,0.0000,0.0000,0.0000,0.0000,0.0000,0.0000,0.0000,0.0000,0.0000\<newline>'' @
       ''0.0000,UNKNOWN,0.0000,0.0000,0.0000,0.0000,0.0000,0.0000,0,0.0000,0.0000,0.0000,0.0000,0.0000,0.0000,0.0000,0.0000,0.0000,0.0000,0.0000,0.0000\<newline>'') \<and>
   console (final_world (main packed_header ''TELEM.DAT'' (world_with ''TELEM.DAT'' two_records))) =
     ''Decoded 2 telemetry packets\<newline>''"
proof -
  have a: "fopen_rb (world_with ''TELEM.DAT'' two_records) ''TELEM.DAT'' = Some two_records"
    by (simp add: fopen_rb_def world_with_def)
  have b: "writable (world_with ''TELEM.DAT'' two_records) (''TELEM.DAT'' @ ''.csv'')"
    by (simp add: world_with_def empty_world_def)
  have s: "sizeof_vec packed_header = 81" by (simp add: packed_header_def)
  have r: "complete_records 81 two_records = [record_in_state (CHR 0x01), record_in_state (CHR 0xC8)]"
    unfolding two_records_def by (rule complete_records_two)
  have d: "fmt_d (of_nat (length two_records div 81)) = ''2''"
    by (simp add: div_two fmt_d_2)
  from main_output [OF binary32_fields_packed a b]
  have "main packed_header ''TELEM.DAT'' (world_with ''TELEM.DAT'' two_records) =
    Returned (world_with ''TELEM.DAT'' two_records
      \<lparr>files := (files (world_with ''TELEM.DAT'' two_records))(''TELEM.DAT'' @ ''.csv'' \<mapsto>
          header_row @ concat (map (row_text packed_header) (complete_records 81 two_records))),
       console := console (world_with ''TELEM.DAT'' two_records) @ ''Decoded '' @
          fmt_d (of_nat (length two_records div 81)) @ '' telemetry packets\<newline>''\<rparr>)"
    unfolding s by (rule conjunct1)
  then show ?thesis
    unfolding r d
    by (simp add: binary32_fields_packed row_text_record_in_state state_name_def
        default_states_def world_with_def empty_world_def fopen_rb_def)
qed

text \<open>
  C4 as stated fails for a dump of \<open>2\<^sup>3\<^sup>2\<close> records: the counter has wrapped around and
  the report is a count of 0.
\<close>

theorem main_output_counterexample:
  "length huge_dump div sizeof_vec packed_header = 2 ^ 32 \<and>
   length (complete_records (sizeof_vec packed_header) huge_dump) = 2 ^ 32 \<and>
   console (final_world (main packed_header ''TELEM.DAT'' (world_with ''TELEM.DAT'' huge_dump))) =
     ''Decoded 0 telemetry packets\<newline>''"
proof -
  have s: "sizeof_vec packed_header = 81" by (simp add: packed_header_def)
  have n: "length huge_dump div 81 = 2 ^ 32" by (simp add: length_huge_dump)
  show ?thesis
    unfolding main_huge_dump [OF n] s length_complete_records n by simp
qed

text \<open>
  C5, amended.  When the length of the input is not a multiple of the size of a record,
  the run returns, and the output file and the report are those of the run on the input
  cut after its last complete record: the trailing fragment adds nothing and is not
  signalled.  The count is that of the complete records, as the 32-bit counter holds it
  (modulo \<open>2\<^sup>3\<^sup>2\<close>, printed with \<^verbatim>\<open>%d\<close>: the decimal numeral of the number when that is
  below \<open>2\<^sup>3\<^sup>1\<close>).  The floating-point fields are those of a struct of \<^verbatim>\<open>float\<close>s, so that
  no row overflows the buffer.
\<close>

theorem main_fragment_dropped:
  assumes "binary32_fields H" "fopen_rb w av1 = Some bytes" "writable w (av1 @ ''.csv'')"
    and "length bytes mod sizeof_vec H \<noteq> 0"
  shows "main H av1 w =
         Returned (w\<lparr>files := (files w)(av1 @ ''.csv'' \<mapsto> header_row @ concat (map (row_text H)
                        (complete_records (sizeof_vec H)
                           (take (sizeof_vec H * (length bytes div sizeof_vec H)) bytes)))),
                     console := console w @ ''Decoded '' @
                        fmt_d (of_nat (length bytes div sizeof_vec H)) @ '' telemetry packets\<newline>''\<rparr>) \<and>
         files (final_world (main H av1 w)) (av1 @ ''.csv'') =
           files (final_world (main H av1 (w\<lparr>files := (files w)(av1 \<mapsto>
              take (sizeof_vec H * (length bytes div sizeof_vec H)) bytes)\<rparr>))) (av1 @ ''.csv'') \<and>
         console (final_world (main H av1 w)) =
           console (final_world (main H av1 (w\<lparr>files := (files w)(av1 \<mapsto>
              take (sizeof_vec H * (length bytes div sizeof_vec H)) bytes)\<rparr>))) \<and>
         (length bytes div sizeof_vec H < 2 ^ 31 \<longrightarrow>
            fmt_d (of_nat (length bytes div sizeof_vec H)) = dec (length bytes div sizeof_vec H))"
proof -
  let ?whole = "take (sizeof_vec H * (length bytes div sizeof_vec H)) bytes"
  let ?w' = "w\<lparr>files := (files w)(av1 \<mapsto> ?whole)\<rparr>"
  have a: "files w av1 = Some bytes" using assms(2) by (simp add: fopen_rb_def)
  have a': "files ?w' av1 = Some ?whole" by simp
  have b': "writable ?w' (av1 @ ''.csv'')" using assms(3) by simp
  have ne: "av1 @ ''.csv'' \<noteq> av1" by simp
  show ?thesis
    unfolding main_returns [OF assms(1) a assms(3)] main_returns [OF assms(1) a' b']
    using ne by (simp add: complete_records_whole length_whole fmt_d_small
        del: length_take take_all_iff)
qed

text \<open>The run on the two records followed by three more bytes.\<close>

theorem main_fragment_dropped_witness:
  "binary32_fields packed_header \<and>
   length (two_records @ ''abc'') mod sizeof_vec packed_header \<noteq> 0 \<and>
   files (final_world (main packed_header ''TELEM.DAT''
            (world_with ''TELEM.DAT'' (two_records @ ''abc'')))) ''TELEM.DAT.csv'' =
     Some (header_row @
       ''0.0000,PWFLIGHT,0.0000,0.0000,0.0000,0.0000,0.0000,0.0000,0,0.0000,0.0000,0.0000,0.0000,0.0000,0.0000,0.0000,0.0000,0.0000,0.0000,0.0000,0.0000\<newline>'' @
       ''0.0000,UNKNOWN,0.0000,0.0000,0.0000,0.0000,0.0000,0.0000,0,0.0000,0.0000,0.0000,0.0000,0.0000,0.0000,0.0000,0.0000,0.0000,0.0000,0.0000,0.0000\<newline>'') \<and>
   console (final_world (main packed_header ''TELEM.DAT''
            (world_with ''TELEM.DAT'' (two_records @ ''abc'')))) =
     ''Decoded 2 telemetry packets\<newline>''"
proof -
  let ?w = "world_with ''TELEM.DAT'' (two_records @ ''abc'')"
  have a: "fopen_rb ?w ''TELEM.DAT'' = Some (two_records @ ''abc'')"
    by (simp add: fopen_rb_def world_with_def)
  have b: "writable ?w (''TELEM.DAT'' @ ''.csv'')"
    by (simp add: world_with_def empty_world_def)
  have s: "sizeof_vec packed_header = 81" by (simp add: packed_header_def)
  have l: "length two_records = 162" by (simp add: two_records_def length_record_in_state)
  have m: "length (two_records @ ''abc'') mod sizeof_vec packed_header \<noteq> 0"
    by (simp add: s l)
  have q: "length (two_records @ ''abc'') div 81 = 2" by (simp add: l)
  have t: "take (81 * 2) (two_records @ ''abc'') = two_records" by (simp add: l)
  have r: "complete_records 81 two_records = [record_in_state (CHR 0x01), record_in_state (CHR 0xC8)]"
    unfolding two_records_def by (rule complete_records_two)
  from main_fragment_dropped [OF binary32_fields_packed a b m]
  have "main packed_header ''TELEM.DAT'' ?w =
    Returned (?w\<lparr>files := (files ?w)(''TELEM.DAT'' @ ''.csv'' \<mapsto>
          header_row @ concat (map (row_text packed_header) (complete_records 81 two_records))),
       console := console ?w @ ''Decoded '' @ fmt_d (of_nat 2) @ '' telemetry packets\<newline>''\<rparr>)"
    unfolding s q t by (rule conjunct1)
  then have f: "files (final_world (main packed_header ''TELEM.DAT'' ?w)) ''TELEM.DAT.csv'' =
     Some (header_row @
       ''0.0000,PWFLIGHT,0.0000,0.0000,0.0000,0.0000,0.0000,0.0000,0,0.0000,0.0000,0.0000,0.0000,0.0000,0.0000,0.0000,0.0000,0.0000,0.0000,0.0000,0.0000\<newline>'' @
       ''0.0000,UNKNOWN,0.0000,0.0000,0.0000,0.0000,0.0000,0.0000,0,0.0000,0.0000,0.0000,0.0000,0.0000,0.0000,0.0000,0.0000,0.0000,0.0000,0.0000,0.0000\<newline>'')"
    and c: "console (final_world (main packed_header ''TELEM.DAT'' ?w)) =
      ''Decoded 2 telemetry packets\<newline>''"
    unfolding r
    by (simp_all add: row_text_record_in_state state_name_def
        default_states_def world_with_def empty_world_def fmt_d_2)
  show ?thesis
    by (intro conjI) (fact binary32_fields_packed, fact m, fact f, fact c)
qed

text \<open>
  C5 as stated fails for a dump of \<open>2\<^sup>3\<^sup>2\<close> records and one more byte: the report is a
  count of 0.
\<close>

theorem main_fragment_dropped_counterexample:
  "length huge_dump_fragment mod sizeof_vec packed_header \<noteq> 0 \<and>
   length huge_dump_fragment div sizeof_vec packed_header = 2 ^ 32 \<and>
   length (complete_records (sizeof_vec packed_header) huge_dump_fragment) = 2 ^ 32 \<and>
   console (final_world (main packed_header ''TELEM.DAT''
     (world_with ''TELEM.DAT'' huge_dump_fragment))) = ''Decoded 0 telemetry packets\<newline>''"
proof -
  have s: "sizeof_vec packed_header = 81" by (simp add: packed_header_def)
  have n: "length huge_dump_fragment div 81 = 2 ^ 32" by (simp add: length_huge_dump_fragment)
  have m: "length huge_dump_fragment mod 81 \<noteq> 0" by (simp add: length_huge_dump_fragment)
  show ?thesis
    unfolding main_huge_dump [OF n] s length_complete_records n using m by simp
qed

text \<open>
  C6.  On an input file of zero bytes the run returns, the output file holds the header
  row and nothing else (one line), and the report is a count of 0.
\<close>

theorem main_empty_input:
  assumes "fopen_rb w av1 = Some []" "writable w (av1 @ ''.csv'')"
  shows "main H av1 w = Returned (w\<lparr>files := (files w)(av1 @ ''.csv'' \<mapsto> header_row),
                              console := console w @ ''Decoded 0 telemetry packets\<newline>''\<rparr>) \<and>
         count_lines header_row = 1"
  using assms by (simp add: main_empty fopen_rb_def count_lines_header)

text \<open>The run on an empty file.\<close>

theorem main_empty_input_witness:
  "fopen_rb (world_with ''TELEM.DAT'' []) ''TELEM.DAT'' = Some [] \<and>
   files (final_world (main packed_header ''TELEM.DAT'' (world_with ''TELEM.DAT'' [])))
     ''TELEM.DAT.csv'' = Some header_row \<and>
   console (final_world (main packed_header ''TELEM.DAT'' (world_with ''TELEM.DAT'' []))) =
     ''Decoded 0 telemetry packets\<newline>''"
proof -
  have a: "fopen_rb (world_with ''TELEM.DAT'' []) ''TELEM.DAT'' = Some []"
    by (simp add: fopen_rb_def world_with_def)
  have b: "writable (world_with ''TELEM.DAT'' []) (''TELEM.DAT'' @ ''.csv'')"
    by (simp add: world_with_def empty_world_def)
  from main_empty_input [OF a b, of packed_header] a show ?thesis
    by (simp add: world_with_def empty_world_def)
qed






text \<open>
  C10.  The counter is a 32-bit unsigned integer: when the run returns, its value is the
  number of complete records modulo \<open>2\<^sup>3\<^sup>2\<close>, and the report prints it with \<^verbatim>\<open>%d\<close>, as
  a signed decimal numeral.
\<close>

theorem packet_count_wraps:
  assumes "binary32_fields H" "fopen_rb w av1 = Some bytes" "writable w (av1 @ ''.csv'')"
  shows "\<exists>packet_count out.
           main_loop H bytes 0 header_row = (None, packet_count, out) \<and>
           unat packet_count = length (complete_records (sizeof_vec H) bytes) mod 2 ^ 32 \<and>
           length (complete_records (sizeof_vec H) bytes) = length bytes div sizeof_vec H \<and>
           fmt_d packet_count =
             (if sint packet_count < 0 then CHR ''-'' # dec (nat (- sint packet_count))
              else dec (nat (sint packet_count))) \<and>
           main H av1 w = Returned (w\<lparr>files := (files w)(av1 @ ''.csv'' \<mapsto> out),
              console := console w @ ''Decoded '' @ fmt_d packet_count @ '' telemetry packets\<newline>''\<rparr>)"
proof -
  let ?c = "of_nat (length (complete_records (sizeof_vec H) bytes)) :: 32 word"
  let ?out = "header_row @ concat (map (row_text H) (complete_records (sizeof_vec H) bytes))"
  have a: "files w av1 = Some bytes" using assms(2) by (simp add: fopen_rb_def)
  have 1: "main_loop H bytes 0 header_row = (None, ?c, ?out)"
    by (simp add: main_loop_records [OF assms(1)])
  have 2: "unat ?c = length (complete_records (sizeof_vec H) bytes) mod 2 ^ 32"
    by (simp add: unat_of_nat)
  have 3: "length (complete_records (sizeof_vec H) bytes) = length bytes div sizeof_vec H"
    by (rule length_complete_records)
  have 4: "fmt_d ?c = (if sint ?c < 0 then CHR ''-'' # dec (nat (- sint ?c))
              else dec (nat (sint ?c)))"
    by (rule fmt_d_def)
  have 5: "main H av1 w = Returned (w\<lparr>files := (files w)(av1 @ ''.csv'' \<mapsto> ?out),
              console := console w @ ''Decoded '' @ fmt_d ?c @ '' telemetry packets\<newline>''\<rparr>)"
    unfolding main_returns [OF assms(1) a assms(3)] 3 by (rule refl)
  from 1 2 3 4 5 show ?thesis by blast
qed

text \<open>
  The run on \<open>2\<^sup>3\<^sup>1\<close> records: the counter holds \<open>2\<^sup>3\<^sup>1\<close>, and \<^verbatim>\<open>%d\<close> prints it as a
  negative number.
\<close>

theorem packet_count_wraps_witness:
  "binary32_fields packed_header \<and>
   fopen_rb (world_with ''TELEM.DAT'' half_dump) ''TELEM.DAT'' = Some half_dump \<and>
   length (complete_records (sizeof_vec packed_header) half_dump) = 2 ^ 31 \<and>
   unat (fst (snd (main_loop packed_header half_dump 0 header_row))) = 2 ^ 31 \<and>
   console (final_world (main packed_header ''TELEM.DAT'' (world_with ''TELEM.DAT'' half_dump))) =
     ''Decoded -2147483648 telemetry packets\<newline>''"
proof -
  let ?w = "world_with ''TELEM.DAT'' half_dump"
  have a: "fopen_rb ?w ''TELEM.DAT'' = Some half_dump"
    by (simp add: fopen_rb_def world_with_def)
  have b: "writable ?w (''TELEM.DAT'' @ ''.csv'')"
    by (simp add: world_with_def empty_world_def)
  have s: "sizeof_vec packed_header = 81" by (simp add: packed_header_def)
  from packet_count_wraps [OF binary32_fields_packed a b]
  obtain pc out where m: "main_loop packed_header half_dump 0 header_row = (None, pc, out)"
    and u: "unat pc = length (complete_records 81 half_dump) mod 2 ^ 32"
    and n: "length (complete_records 81 half_dump) = length half_dump div 81"
    and r: "main packed_header ''TELEM.DAT'' ?w = Returned (?w\<lparr>files := (files ?w)(''TELEM.DAT'' @ ''.csv'' \<mapsto> out),
              console := console ?w @ ''Decoded '' @ fmt_d pc @ '' telemetry packets\<newline>''\<rparr>)"
    unfolding s by blast
  have n': "length (complete_records 81 half_dump) = 2 ^ 31"
    unfolding n by (simp add: length_half_dump)
  have u': "unat pc = 2 ^ 31" unfolding u n' by simp
  then have pc: "pc = 2147483648" by (simp add: word_unat_eq_iff)
  have c: "unat (fst (snd (main_loop packed_header half_dump 0 header_row))) = 2 ^ 31"
    using u' by (simp add: m)
  have d: "console (final_world (main packed_header ''TELEM.DAT'' ?w)) =
      ''Decoded -2147483648 telemetry packets\<newline>''"
    unfolding r by (simp add: pc fmt_d_examples world_with_def empty_world_def)
  show ?thesis
    unfolding s
    by (intro conjI) (fact binary32_fields_packed, fact a, fact n', fact c, fact d)
qed

end
